theory Spec2Isabelle
  imports Main "HOL-Library.Sublist" "HOL-Library.AList"
begin

section \<open>Python strings\<close>

text \<open>
  A Python \<open>str\<close> is a sequence of Unicode code points. Both applications lower-case
  their input, match it against regular expressions and compare it with literals, one of
  which lies outside Latin-1, so a string is a list of code points (natural numbers).
  \<open>asc\<close> writes an ASCII literal; equality of strings is equality of lists, \<open>a in b\<close> on
  strings is \<^const>\<open>sublist\<close> and \<open>b.startswith(a)\<close> is \<^const>\<open>prefix\<close>.
\<close>

type_synonym codepoint = nat
type_synonym str = "codepoint list"

definition asc :: "string \<Rightarrow> str" where
  "asc s = map of_char s"

text \<open>
  What Python takes from the Unicode character database is a parameter of the model:
  \<open>str.lower()\<close> (a function of the whole string: the lower case of one code point can be
  several, and that of U+03A3 depends on its neighbours), the white space of \<open>\s\<close> and of
  \<open>str.strip()\<close>, the decimal digits of \<open>\d\<close> and the word characters of \<open>\w\<close> and \<open>\b\<close>.
\<close>

record unicode =
  str_lower :: "str \<Rightarrow> str"
  is_space :: "codepoint \<Rightarrow> bool"
  is_decimal :: "codepoint \<Rightarrow> bool"
  is_word :: "codepoint \<Rightarrow> bool"

text \<open>\<open>sep.join(xs)\<close>\<close>

fun join :: "str \<Rightarrow> str list \<Rightarrow> str" where
  "join sep [] = []"
| "join sep [x] = x"
| "join sep (x # y # ys) = x @ sep @ join sep (y # ys)"

text \<open>
  \<open>s.strip()\<close> is \<open>strip_chars (is_space U) s\<close> and \<open>s.strip("-")\<close> is
  \<open>strip_chars (\<lambda>c. c = 45) s\<close>: the characters of the class are removed at both ends.
\<close>

definition strip_chars :: "(codepoint \<Rightarrow> bool) \<Rightarrow> str \<Rightarrow> str" where
  "strip_chars P s = rev (dropWhile P (rev (dropWhile P s)))"

subsection \<open>Regular expressions\<close>

text \<open>
  \<open>re.sub(C{n,}, rep, s)\<close> for a character class \<open>C\<close> and \<open>n \<ge> 1\<close> (\<open>C+\<close> is
  \<open>C{1,}\<close>): the scan goes from left to right, the repetition is greedy, so a match
  starts only at the beginning of a maximal run of \<open>C\<close> and takes the whole run; a run
  shorter than \<open>n\<close> is copied.
\<close>

function re_sub_runs :: "nat \<Rightarrow> (codepoint \<Rightarrow> bool) \<Rightarrow> str \<Rightarrow> str \<Rightarrow> str" where
  "re_sub_runs n P rep [] = []"
| "re_sub_runs n P rep (c # cs) =
     (if \<not> P c then c # re_sub_runs n P rep cs
      else if n \<le> length (takeWhile P (c # cs))
        then rep @ re_sub_runs n P rep (dropWhile P cs)
        else takeWhile P (c # cs) @ re_sub_runs n P rep (dropWhile P cs))"
  by pat_completeness auto
termination
  by (relation "measure (\<lambda>(n, P, rep, s). length s)")
     (auto simp: length_dropWhile_le less_Suc_eq_le)

text \<open>
  The patterns given to \<open>re.search\<close> are kept as syntax trees. \<open>Lit w\<close> is the literal
  \<open>w\<close> (what \<open>re.escape\<close> produces), \<open>Cls\<close> a character class of single characters,
  \<open>\d\<close> and \<open>\s\<close>, \<open>Opt r\<close> is \<open>r?\<close>, \<open>Star r\<close> is \<open>r*\<close> and \<open>Bnd\<close> is \<open>\b\<close>.
\<close>

datatype item = Ch codepoint | Digit | Space

fun in_item :: "unicode \<Rightarrow> item \<Rightarrow> codepoint \<Rightarrow> bool" where
  "in_item U (Ch a) c = (c = a)"
| "in_item U Digit c = is_decimal U c"
| "in_item U Space c = is_space U c"

datatype rx = Lit str | Cls "item list" | Seq rx rx | Alt rx rx | Opt rx | Star rx | Bnd

text \<open>
  A cursor is a position in the subject: the character before it (none at the start)
  and the rest of the subject. \<open>\b\<close> holds where exactly one of the two neighbours is a
  word character.
\<close>

type_synonym cursor = "codepoint option \<times> str"

definition at_boundary :: "unicode \<Rightarrow> cursor \<Rightarrow> bool" where
  "at_boundary U cur =
     ((case fst cur of None \<Rightarrow> False | Some c \<Rightarrow> is_word U c)
      \<noteq> (case snd cur of [] \<Rightarrow> False | c # _ \<Rightarrow> is_word U c))"

text \<open>
  \<open>ends U r cur\<close> lists the cursors at which a match of \<open>r\<close> that starts at \<open>cur\<close> can
  end (the backtracking matcher's choices). An iteration of \<open>r*\<close> that consumes nothing is
  not repeated.
\<close>

fun ends :: "unicode \<Rightarrow> rx \<Rightarrow> cursor \<Rightarrow> cursor list" where
  "ends U (Lit w) cur =
     (if prefix w (snd cur)
      then [(if w = [] then fst cur else Some (last w), drop (length w) (snd cur))]
      else [])"
| "ends U (Cls items) cur =
     (case snd cur of
        [] \<Rightarrow> []
      | c # cs \<Rightarrow> if \<exists>i \<in> set items. in_item U i c then [(Some c, cs)] else [])"
| "ends U (Seq a b) cur = concat (map (ends U b) (ends U a cur))"
| "ends U (Alt a b) cur = ends U a cur @ ends U b cur"
| "ends U (Opt a) cur = ends U a cur @ [cur]"
| "ends U (Star a) cur =
     concat (map (ends U (Star a))
               (filter (\<lambda>nxt. length (snd nxt) < length (snd cur)) (ends U a cur))) @ [cur]"
| "ends U Bnd cur = (if at_boundary U cur then [cur] else [])"

text \<open>\<open>bool(re.search(r, s))\<close>: some position of \<open>s\<close> starts a match.\<close>

fun search_from :: "unicode \<Rightarrow> rx \<Rightarrow> codepoint option \<Rightarrow> str \<Rightarrow> bool" where
  "search_from U r p [] = (ends U r (p, []) \<noteq> [])"
| "search_from U r p (c # cs) = (ends U r (p, c # cs) \<noteq> [] \<or> search_from U r (Some c) cs)"

definition re_search :: "unicode \<Rightarrow> rx \<Rightarrow> str \<Rightarrow> bool" where
  "re_search U r s = search_from U r None s"

section \<open>Data model\<close>

text \<open>
  A site record of \<open>websites.json\<close>: \<open>name\<close> and \<open>url\<close>, and the optional list
  \<open>strengths\<close> (read with \<open>w.get("strengths", [])\<close>).
\<close>

record site =
  name :: str
  url :: str
  strengths :: "str list option"

text \<open>
  A dictionary is an association list in insertion order; \<open>d[k] = v\<close> is
  \<^const>\<open>AList.update\<close>, which overwrites the value of a key already present where it
  stands and appends a new key.
\<close>

type_synonym reason_map = "(str \<times> str) list"

datatype error =
    ModelFault str | JSONDecodeError | ValueError | AttributeError | KeyError
  | UnicodeEncodeError

section \<open>Category detection\<close>

text \<open>
  The loop shared by \<open>detect_category\<close> (\<open>app.py\<close>) and \<open>extract_category\<close>
  (\<open>streamlit-app/app.py\<close>), which differ in the score only: over the items of the table
  in order, with the state \<open>(best_cat, best_score)\<close>, started at \<open>(None, 0)\<close>.
\<close>

fun best_category :: "('cfg \<Rightarrow> nat) \<Rightarrow> (str \<times> 'cfg) list \<Rightarrow> str option \<times> nat \<Rightarrow> str option \<times> nat" where
  "best_category score [] best = best"
| "best_category score ((cat, cfg) # rest) (best_cat, best_score) =
     (if score cfg > best_score
      then best_category score rest (Some cat, score cfg)
      else best_category score rest (best_cat, best_score))"

text \<open>\<open>return best_cat if best_score > 0 else None\<close>\<close>

definition positive_best :: "str option \<times> nat \<Rightarrow> str option" where
  "positive_best best = (if snd best > 0 then fst best else None)"

text \<open>\<open>app.py\<close>: a keyword counts when its lower case is a substring of the lower-cased query.\<close>

definition substring_score :: "unicode \<Rightarrow> str \<Rightarrow> str list \<Rightarrow> nat" where
  "substring_score U text keywords =
     length (filter (\<lambda>kw. sublist (str_lower U kw) text) keywords)"

definition detect_category :: "unicode \<Rightarrow> str \<Rightarrow> (str \<times> str list) list \<Rightarrow> str option" where
  "detect_category U query categories_map =
     (let text = str_lower U query
      in positive_best (best_category (substring_score U text) categories_map (None, 0)))"

text \<open>\<open>streamlit-app/app.py\<close>\<close>

definition normalize_text :: "unicode \<Rightarrow> str \<Rightarrow> str" where
  "normalize_text U s =
     strip_chars (is_space U) (re_sub_runs 1 (is_space U) (asc '' '') (str_lower U s))"

text \<open>
  There a category maps to an object with the optional field \<open>keywords\<close>, and a keyword
  counts when \<open>\b\<close>, its escaped lower case and \<open>\b\<close> match somewhere in the normalized
  query.
\<close>

record category_cfg =
  cfg_keywords :: "str list option"

definition word_score :: "unicode \<Rightarrow> str \<Rightarrow> category_cfg \<Rightarrow> nat" where
  "word_score U q cfg =
     (let kws = (case cfg_keywords cfg of None \<Rightarrow> [] | Some ks \<Rightarrow> ks)
      in length (filter (\<lambda>kw. re_search U (Seq Bnd (Seq (Lit (str_lower U kw)) Bnd)) q) kws))"

definition extract_category :: "unicode \<Rightarrow> str \<Rightarrow> (str \<times> category_cfg) list \<Rightarrow> str option" where
  "extract_category U query categories =
     (let q = normalize_text U query
      in positive_best (best_category (word_score U q) categories (None, 0)))"

section \<open>Reasons (\<open>app.py\<close>, the batch variant)\<close>

text \<open>\<open>w.get("strengths", [])\<close>\<close>

definition get_strengths :: "site \<Rightarrow> str list" where
  "get_strengths w = (case strengths w of None \<Rightarrow> [] | Some xs \<Rightarrow> xs)"

text \<open>
  \<open>build_fallback_reasons\<close>: one assignment \<open>reasons[w["name"]] = ...\<close> per site, in
  order. The query is a parameter that the body does not read.
\<close>

definition fallback_sentence :: "site \<Rightarrow> str \<Rightarrow> str" where
  "fallback_sentence w category =
     (let strength_tip =
            (if get_strengths w \<noteq> [] then join (asc '', '') (take 2 (get_strengths w))
             else asc ''good selection and reliability'')
      in asc ''Great for '' @ category @ asc ''; known for '' @ strength_tip @ asc ''.'')"

definition build_fallback_reasons :: "site list \<Rightarrow> str \<Rightarrow> str \<Rightarrow> reason_map" where
  "build_fallback_reasons websites category user_query =
     foldl (\<lambda>reasons w. AList.update (name w) (fallback_sentence w category) reasons) [] websites"

text \<open>
  The values \<open>json.loads\<close> returns. A float keeps its literal; an object is the list of
  its members in order.
\<close>

datatype json =
    JNull | JBool bool | JInt int | JFloat str | JString str
  | JArray "json list" | JObject "(str \<times> json) list"

text \<open>
  \<open>str(v)\<close> is \<open>v\<close> itself for a string and the \<open>repr\<close> of any other value, which the
  model takes as a parameter.
\<close>

definition py_str :: "(json \<Rightarrow> str) \<Rightarrow> json \<Rightarrow> str" where
  "py_str repr v = (case v of JString s \<Rightarrow> s | _ \<Rightarrow> repr v)"

text \<open>The variables that fill the prompt template, and the line that describes a site.\<close>

record prompt_vars =
  var_user_query :: str
  var_category :: str
  var_website_list :: str

definition website_line :: "site \<Rightarrow> str" where
  "website_line w =
     (let strengths_txt =
            (if get_strengths w \<noteq> [] then join (asc '', '') (get_strengths w)
             else asc ''general strengths'')
      in asc ''- '' @ name w @ asc '': '' @ strengths_txt)"

text \<open>The argument of \<open>chain.invoke\<close>; the lines are joined with a line feed.\<close>

definition prompt_input :: "str \<Rightarrow> str \<Rightarrow> site list \<Rightarrow> prompt_vars" where
  "prompt_input user_query category websites =
     \<lparr>var_user_query = user_query, var_category = category,
      var_website_list = join [10] (map website_line websites)\<rparr>"

text \<open>
  The body of the \<open>try\<close> of \<open>generate_reasons_for_websites\<close>. What \<open>chain.invoke\<close>
  does and \<open>json.loads\<close> are parameters: each returns a value or raises. The chain that
  the function builds from its prompt template is \<open>prompt_chain\<close>, below. The dictionary
  comprehension keeps the members whose key is the name of a site.
\<close>

definition model_reasons ::
  "(prompt_vars \<Rightarrow> error + str) \<Rightarrow> (str \<Rightarrow> error + json) \<Rightarrow> (json \<Rightarrow> str) \<Rightarrow>
     str \<Rightarrow> str \<Rightarrow> site list \<Rightarrow> error + reason_map" where
  "model_reasons chain json_loads repr user_query category websites =
     (case chain (prompt_input user_query category websites) of
        Inl e \<Rightarrow> Inl e
      | Inr raw \<Rightarrow>
          (case json_loads raw of
             Inl e \<Rightarrow> Inl e
           | Inr reasons \<Rightarrow>
               (case reasons of
                  JObject members \<Rightarrow>
                    Inr (foldl (\<lambda>filtered (k, v).
                                  if k \<in> name ` set websites
                                  then AList.update k (py_str repr v) filtered else filtered)
                           [] members)
                | _ \<Rightarrow> Inl ValueError)))"

text \<open>\<open>except Exception: return build_fallback_reasons(websites, category, user_query)\<close>\<close>

definition generate_reasons_for_websites ::
  "(prompt_vars \<Rightarrow> error + str) \<Rightarrow> (str \<Rightarrow> error + json) \<Rightarrow> (json \<Rightarrow> str) \<Rightarrow>
     str \<Rightarrow> str \<Rightarrow> site list \<Rightarrow> reason_map" where
  "generate_reasons_for_websites chain json_loads repr user_query category websites =
     (case model_reasons chain json_loads repr user_query category websites of
        Inl e \<Rightarrow> build_fallback_reasons websites category user_query
      | Inr filtered \<Rightarrow> filtered)"

subsection \<open>The chain\<close>

text \<open>
  The chain is \<open>prompt | llm | StrOutputParser()\<close>, and the prompt is
  \<open>ChatPromptTemplate.from_template\<close> of the text at lines 136 to 154 of \<open>app.py\<close>, an
  f-string template. The template is kept as \<open>string.Formatter().parse\<close> reads it: literal
  text and replacement fields, a field being the text between a \<open>{\<close> and the next \<open>}\<close>,
  split at its first colon into a name and a format specification. The braces of the JSON
  example that ends the template are not doubled, so they make a fourth field: its name is
  a line feed, two spaces and \<open>"Amazon India"\<close> with its quotation marks.
\<close>

datatype piece = Plain str | Field str str

definition prompt_template :: "piece list" where
  \<open>prompt_template =
     [Plain (asc ''You are a helpful shopping assistant.'' @ [10] @ asc ''User'' @ [39]
               @ asc ''s query: "''),
      Field (asc ''user_query'') [],
      Plain (asc ''"'' @ [10] @ asc ''Detected category: "''),
      Field (asc ''category'') [],
      Plain (asc ''"'' @ [10, 10]
               @ asc ''Below is a list of websites and their typical strengths. For EACH website, write ONE short sentence (<=22 words) explaining WHY it''
               @ [39] @ asc ''s a good choice specifically for this user'' @ [39]
               @ asc ''s query and context (consider Indian market and budget hints if present).''
               @ [10, 10] @ asc ''Websites:'' @ [10]),
      Field (asc ''website_list'') [],
      Plain ([10, 10] @ asc ''Output rules:'' @ [10]
               @ asc ''- Return a VALID JSON object only, no markdown or extra text.'' @ [10]
               @ asc ''- Keys MUST be exactly the website names from the list above.'' @ [10]
               @ asc ''- Values are the one-sentence reasons.'' @ [10, 10]
               @ asc ''Example format:'' @ [10]),
      Field ([10] @ asc ''  "Amazon India"'')
            (asc '' "Reason here.",'' @ [10] @ asc ''  "Flipkart": "Reason here."'' @ [10])]\<close>

text \<open>The input variables of a template are the names of its fields.\<close>

fun template_variables :: "piece list \<Rightarrow> str list" where
  "template_variables [] = []"
| "template_variables (Plain t # ps) = template_variables ps"
| "template_variables (Field n spec # ps) = n # template_variables ps"

text \<open>The dictionary that the function passes to \<open>chain.invoke\<close>: three keys.\<close>

definition invoke_dict :: "prompt_vars \<Rightarrow> (str \<times> str) list" where
  "invoke_dict vars =
     [(asc ''user_query'', var_user_query vars),
      (asc ''category'', var_category vars),
      (asc ''website_list'', var_website_list vars)]"

text \<open>
  Invoking the chain invokes the prompt first, which raises \<open>KeyError\<close> when the
  dictionary lacks one of the input variables (so would \<open>str.format\<close>). The rest of the
  chain is the parameter \<open>llm\<close>: from a dictionary that has every variable, the filled
  prompt, the model's answer to it and the text of that answer, or what the model raises.
\<close>

definition prompt_chain ::
  "((str \<times> str) list \<Rightarrow> error + str) \<Rightarrow> prompt_vars \<Rightarrow> error + str" where
  "prompt_chain llm vars =
     (if set (template_variables prompt_template) \<subseteq> fst ` set (invoke_dict vars)
      then llm (invoke_dict vars)
      else Inl KeyError)"

section \<open>Reasons (\<open>streamlit-app/app.py\<close>, the per-site variant)\<close>

text \<open>
  The pattern of \<open>budget_present\<close>, as the source file has it:
  \<open>(M|rs\.?|rupees?)\s*\d[\d,]*|under\s*\d[\d,]*\<close>, where \<open>M\<close> is the three code
  points U+00E2, U+201A, U+00B9: the UTF-8 bytes of the rupee sign U+20B9 read as
  Windows-1252, in the pattern as in the comment above it. The rupee sign itself is not
  among the alternatives.
\<close>

definition budget_rx :: rx where
  "budget_rx =
     Alt (Seq (Alt (Lit [226, 8218, 185])
                 (Alt (Seq (Lit (asc ''rs'')) (Opt (Lit (asc ''.''))))
                      (Seq (Lit (asc ''rupee'')) (Opt (Lit (asc ''s''))))))
              (Seq (Star (Cls [Space])) (Seq (Cls [Digit]) (Star (Cls [Digit, Ch 44])))))
         (Seq (Lit (asc ''under''))
              (Seq (Star (Cls [Space])) (Seq (Cls [Digit]) (Star (Cls [Digit, Ch 44])))))"

definition budget_present :: "unicode \<Rightarrow> str \<Rightarrow> bool" where
  "budget_present U query = (let q = normalize_text U query in re_search U budget_rx q)"

definition deterministic_reason :: "unicode \<Rightarrow> str \<Rightarrow> str \<Rightarrow> str \<Rightarrow> str" where
  "deterministic_reason U site_name category query =
     (let has_budget = budget_present U query;
          base = site_name @ asc '' is a reliable place to browse '' @ category
                 @ asc '' with broad selection, trusted sellers, and convenient delivery.'';
          base =
            (if category = asc ''electronics''
             then site_name @ asc '' offers a strong range of electronics with specs filters, trusted warranties, and quick delivery options.''
             else if category = asc ''fashion''
             then site_name @ asc '' features extensive fashion catalogs, frequent discounts, and easy returns for size or style.''
             else if category = asc ''furniture''
             then site_name @ asc '' lists sturdy furniture with style/size filters, clear specs, and delivery/assembly support.''
             else base)
      in if has_budget
         then base @ asc '' Use price filters and deals to stay within your budget.''
         else base)"

text \<open>
  The model's answer: \<open>result.content\<close> is \<open>None\<close>, a text, or a list of content
  blocks. \<open>(result.content or "")\<close> is the empty text for \<open>None\<close>, the empty text and
  the empty list; a list that is not empty has no \<open>strip\<close>.
\<close>

datatype content = NoContent | Text str | Blocks "str list"

definition llm_prompt :: "str \<Rightarrow> str \<Rightarrow> str \<Rightarrow> str \<Rightarrow> str" where
  "llm_prompt query category site_name site_url =
     asc ''You are a helpful shopping assistant for India. ''
     @ asc ''Given a user shopping query, a product category, and a website, write ONE short, specific sentence ''
     @ asc ''(max 25 words) explaining why the site is a good place to buy. ''
     @ asc ''Be factual. Don'' @ [39] @ asc ''t invent prices or stock. If budget is mentioned, suggest using filters/deals.''
     @ [10, 10]
     @ asc ''User query: '' @ query @ [10]
     @ asc ''Category: '' @ category @ [10]
     @ asc ''Website: '' @ site_name @ asc '' ('' @ site_url @ asc '')'' @ [10]
     @ asc ''Answer:''"

text \<open>
  The body of the \<open>try\<close> of \<open>reason_with_llm\<close>; \<open>llm.invoke\<close> is a parameter.
  \<open>re.split(r"[\.!?]", text)[0]\<close> is the text before the first of \<open>.\<close>, \<open>!\<close>, \<open>?\<close>.
\<close>

definition llm_sentence :: "unicode \<Rightarrow> (str \<Rightarrow> error + content) \<Rightarrow> str \<Rightarrow> str \<Rightarrow> str \<Rightarrow> str \<Rightarrow> error + str" where
  "llm_sentence U llm query category site_name site_url =
     (case llm (llm_prompt query category site_name site_url) of
        Inl e \<Rightarrow> Inl e
      | Inr result_content \<Rightarrow>
          (case result_content of
             Blocks (b # bs) \<Rightarrow> Inl AttributeError
           | _ \<Rightarrow>
               (let text = strip_chars (is_space U)
                             (case result_content of Text t \<Rightarrow> t | _ \<Rightarrow> []);
                    sentence = strip_chars (is_space U)
                                 (takeWhile (\<lambda>c. c \<noteq> 46 \<and> c \<noteq> 33 \<and> c \<noteq> 63) text)
                in if text = [] then Inl ValueError else Inr (sentence @ asc ''.''))))"

definition reason_with_llm :: "unicode \<Rightarrow> (str \<Rightarrow> error + content) \<Rightarrow> str \<Rightarrow> str \<Rightarrow> str \<Rightarrow> str \<Rightarrow> str" where
  "reason_with_llm U llm query category site_name site_url =
     (case llm_sentence U llm query category site_name site_url of
        Inl e \<Rightarrow> deterministic_reason U site_name category query
      | Inr text \<Rightarrow> text)"

text \<open>
  The spec's words for the budget token, to be compared with \<open>budget_present\<close>:
  digits preceded by a currency marker or the word \<open>under\<close>. The currency markers are
  the rupee sign U+20B9 of the spec's first scenario and the words \<open>rs\<close>, \<open>rs.\<close>,
  \<open>rupee\<close> and \<open>rupees\<close>; white space may stand between the marker and the first
  digit, and a marker counts wherever its letters stand in the text.
\<close>

definition spec_budget_markers :: "str list" where
  "spec_budget_markers =
     [[8377], asc ''rs'', asc ''rs.'', asc ''rupee'', asc ''rupees'', asc ''under'']"

definition spec_budget_token :: "unicode \<Rightarrow> str \<Rightarrow> bool" where
  "spec_budget_token U q =
     (\<exists>pre m ws d post. q = pre @ m @ ws @ d # post \<and> m \<in> set spec_budget_markers \<and>
        list_all (is_space U) ws \<and> is_decimal U d)"




section \<open>Deep links\<close>

text \<open>
  \<open>to_slug\<close>: \<open>[^a-z0-9]+\<close> to a hyphen, \<open>-{2,}\<close> to a hyphen, \<open>strip("-")\<close>, and
  \<open>"search"\<close> when nothing is left.
\<close>

definition slug_char :: "codepoint \<Rightarrow> bool" where
  "slug_char c = (97 \<le> c \<and> c \<le> 122 \<or> 48 \<le> c \<and> c \<le> 57)"

definition to_slug :: "unicode \<Rightarrow> str \<Rightarrow> str" where
  "to_slug U s =
     (let s = normalize_text U s;
          s = re_sub_runs 1 (\<lambda>c. \<not> slug_char c) (asc ''-'') s;
          s = strip_chars (\<lambda>c. c = 45) (re_sub_runs 2 (\<lambda>c. c = 45) (asc ''-'') s)
      in if s = [] then asc ''search'' else s)"

text \<open>
  \<open>build_deep_link\<close>. \<open>urlparse(base_url).netloc\<close> is the parameter \<open>netloc\<close>, which
  raises \<open>ValueError\<close> on some URLs, and \<open>urllib.parse.quote\<close> is the parameter
  \<open>quote\<close>, which raises \<open>UnicodeEncodeError\<close> on a text that UTF-8 cannot encode (a
  lone surrogate). The query is encoded before the host is looked at, and nothing here
  catches either error.
\<close>

definition build_deep_link ::
  "unicode \<Rightarrow> (str \<Rightarrow> error + str) \<Rightarrow> (str \<Rightarrow> error + str) \<Rightarrow>
     str \<Rightarrow> str \<Rightarrow> str \<Rightarrow> str \<Rightarrow> error + str" where
  "build_deep_link U netloc quote site_name base_url query category =
     (case netloc base_url of
        Inl e \<Rightarrow> Inl e
      | Inr nl \<Rightarrow>
          (let host = str_lower U nl;
               q_norm = normalize_text U query
           in (case quote q_norm of
                 Inl e \<Rightarrow> Inl e
               | Inr q_enc \<Rightarrow>
                   Inr
                      (if sublist (asc ''amazon.in'') host then
                         (if prefix (asc ''amazon fashion'') (str_lower U site_name) \<or> category = asc ''fashion''
                          then asc ''https://www.amazon.in/s?k='' @ q_enc @ asc ''&i=apparel''
                          else asc ''https://www.amazon.in/s?k='' @ q_enc)
                       else if sublist (asc ''flipkart.com'') host then
                         asc ''https://www.flipkart.com/search?q='' @ q_enc
                       else if sublist (asc ''croma.com'') host then
                         asc ''https://www.croma.com/searchB?q='' @ q_enc
                       else if sublist (asc ''reliancedigital.in'') host then
                         asc ''https://www.reliancedigital.in/search?q='' @ q_enc
                       else if sublist (asc ''myntra.com'') host then
                         asc ''https://www.myntra.com/'' @ to_slug U q_norm @ asc ''?rawQuery='' @ q_enc @ asc ''&p=1''
                       else if sublist (asc ''ajio.com'') host then
                         asc ''https://www.ajio.com/search/?text='' @ q_enc
                       else if sublist (asc ''pepperfry.com'') host then
                         asc ''https://www.pepperfry.com/site_product/search?q='' @ q_enc
                       else if sublist (asc ''ikea.com'') host then
                         asc ''https://www.ikea.com/in/en/search/?q='' @ q_enc
                       else if sublist (asc ''urbanladder.com'') host then
                         asc ''https://www.urbanladder.com/products/search?keywords='' @ q_enc
                       else base_url))))"

text \<open>
  The retailers that \<open>build_deep_link\<close> knows, in the order of its tests: a host is
  recognized when one of these domains occurs in its lower case.
\<close>

definition known_retailer_domains :: "str list" where
  "known_retailer_domains =
     [asc ''amazon.in'', asc ''flipkart.com'', asc ''croma.com'', asc ''reliancedigital.in'',
      asc ''myntra.com'', asc ''ajio.com'', asc ''pepperfry.com'', asc ''ikea.com'',
      asc ''urbanladder.com'']"

section \<open>An excerpt of the Unicode character database\<close>

text \<open>
  The examples below run on this instance of the parameter. It is exact on the code
  points below U+0100 and on U+0130, U+201A, U+20B9, U+212A and U+D800; the examples
  on it contain no other code point.
\<close>

definition lower_cp :: "codepoint \<Rightarrow> str" where
  "lower_cp c =
     (if 65 \<le> c \<and> c \<le> 90 \<or> 192 \<le> c \<and> c \<le> 214 \<or> 216 \<le> c \<and> c \<le> 222 then [c + 32]
      else if c = 304 then [105, 775]
      else if c = 8490 then [107]
      else [c])"

definition ucd :: unicode where
  "ucd = \<lparr>
     str_lower = (\<lambda>s. concat (map lower_cp s)),
     is_space = (\<lambda>c. 9 \<le> c \<and> c \<le> 13 \<or> 28 \<le> c \<and> c \<le> 32 \<or> c = 133 \<or> c = 160),
     is_decimal = (\<lambda>c. 48 \<le> c \<and> c \<le> 57),
     is_word = (\<lambda>c. 48 \<le> c \<and> c \<le> 57 \<or> 65 \<le> c \<and> c \<le> 90 \<or> c = 95 \<or> 97 \<le> c \<and> c \<le> 122
                   \<or> c = 170 \<or> c = 178 \<or> c = 179 \<or> c = 181 \<or> c = 185 \<or> c = 186
                   \<or> 188 \<le> c \<and> c \<le> 190 \<or> 192 \<le> c \<and> c \<le> 214 \<or> 216 \<le> c \<and> c \<le> 246
                   \<or> 248 \<le> c \<and> c \<le> 255 \<or> c = 304 \<or> c = 8490)\<rparr>"

text \<open>
  A second excerpt, for Greek text: exact on the ASCII code points and on the letters
  U+0394, U+039F, U+03A3 (capital delta, omicron, sigma) and U+03B4, U+03BF, U+03C2,
  U+03C3 (small delta, omicron, final sigma, sigma). \<open>str.lower()\<close> maps a capital
  sigma to the final sigma when a cased letter stands before it and none after it,
  case-ignorable characters skipped on both sides, and to the small sigma otherwise.
  \<open>lower_from before s\<close> lowers \<open>s\<close>, of which \<open>before\<close> are the characters to the
  left, the nearest first.
\<close>

definition greek_letters :: "codepoint list" where
  "greek_letters = [916, 927, 931, 948, 959, 962, 963]"

definition cased :: "codepoint \<Rightarrow> bool" where
  "cased c = (65 \<le> c \<and> c \<le> 90 \<or> 97 \<le> c \<and> c \<le> 122 \<or> c \<in> set greek_letters)"

definition case_ignorable :: "codepoint \<Rightarrow> bool" where
  "case_ignorable c = (c \<in> set [39, 46, 58, 94, 96])"

definition final_sigma :: "str \<Rightarrow> str \<Rightarrow> bool" where
  "final_sigma before after =
     ((case dropWhile case_ignorable before of [] \<Rightarrow> False | b # _ \<Rightarrow> cased b)
      \<and> (case dropWhile case_ignorable after of [] \<Rightarrow> True | a # _ \<Rightarrow> \<not> cased a))"

fun lower_from :: "str \<Rightarrow> str \<Rightarrow> str" where
  "lower_from before [] = []"
| "lower_from before (c # cs) =
     (if c = 931 then [if final_sigma before cs then 962 else 963]
      else if c = 916 then [948]
      else if c = 927 then [959]
      else lower_cp c)
     @ lower_from (c # before) cs"

definition ucd_greek :: unicode where
  "ucd_greek = \<lparr>
     str_lower = lower_from [],
     is_space = is_space ucd,
     is_decimal = is_decimal ucd,
     is_word = (\<lambda>c. is_word ucd c \<or> c \<in> set greek_letters)\<rparr>"

text \<open>
  The lower-case letter of one character on its own, by which two texts are compared
  letter by letter.
\<close>

definition lower_letter :: "codepoint \<Rightarrow> codepoint" where
  "lower_letter c =
     (if 65 \<le> c \<and> c \<le> 90 then c + 32
      else if c = 916 then 948
      else if c = 927 then 959
      else if c = 931 then 963
      else c)"

section \<open>Example inputs\<close>

text \<open>Two site records, the second without \<open>strengths\<close>.\<close>

definition two_sites :: "site list" where
  "two_sites =
     [\<lparr>name = asc ''Amazon India'', url = asc ''https://www.amazon.in'',
       strengths = Some [asc ''fast delivery'', asc ''wide selection'', asc ''easy returns'']\<rparr>,
      \<lparr>name = asc ''Flipkart'', url = asc ''https://www.flipkart.com'', strengths = None\<rparr>]"

text \<open>
  An answer of the model that is a JSON object, names one of the two sites and a site
  that is not in the list, and what \<open>json.loads\<close> makes of it.
\<close>

definition partial_answer :: str where
  \<open>partial_answer = asc ''{"Amazon India": "Fast delivery.", "Croma": "Good stores."}''\<close>

definition loads_example :: "str \<Rightarrow> error + json" where
  "loads_example raw =
     (if raw = partial_answer
      then Inr (JObject [(asc ''Amazon India'', JString (asc ''Fast delivery.'')),
                         (asc ''Croma'', JString (asc ''Good stores.''))])
      else if raw = asc ''[1, 2]'' then Inr (JArray [JInt 1, JInt 2])
      else Inl JSONDecodeError)"

text \<open>
  A model that gives this answer to every filled prompt. Two chains other than the one
  that the function builds, one that times out and one that returns the empty text. The
  \<open>repr\<close> of the values that are not strings (the examples convert \<open>None\<close> and booleans
  at most).
\<close>

definition llm_partial :: "(str \<times> str) list \<Rightarrow> error + str" where
  "llm_partial filled = Inr partial_answer"

definition chain_timeout :: "prompt_vars \<Rightarrow> error + str" where
  "chain_timeout vars = Inl (ModelFault (asc ''timeout''))"

definition chain_empty :: "prompt_vars \<Rightarrow> error + str" where
  "chain_empty vars = Inr []"

definition repr_example :: "json \<Rightarrow> str" where
  "repr_example v =
     (case v of JNull \<Rightarrow> asc ''None''
      | JBool b \<Rightarrow> (if b then asc ''True'' else asc ''False'')
      | _ \<Rightarrow> [])"

text \<open>A model that raises, and one that answers with white space only.\<close>

definition llm_down :: "str \<Rightarrow> error + content" where
  "llm_down prompt = Inl (ModelFault (asc ''auth''))"

definition llm_blank :: "str \<Rightarrow> error + content" where
  "llm_blank prompt = Inr (Text (asc ''  ''))"

text \<open>
  What \<open>urlparse\<close> finds in the URLs of two shops that are not in the table, and what
  \<open>quote\<close> makes of a text of ASCII letters, digits and spaces, or of one with a
  surrogate.
\<close>

definition netloc_example :: "str \<Rightarrow> error + str" where
  "netloc_example u =
     (if u = asc ''https://shop.example.org/'' then Inr (asc ''Shop.Example.org'')
      else if u = asc ''https://notamazon.in.evil.example/''
      then Inr (asc ''notamazon.in.evil.example'')
      else Inl ValueError)"

definition quote_example :: "str \<Rightarrow> error + str" where
  "quote_example q =
     (if list_ex (\<lambda>c. 55296 \<le> c \<and> c \<le> 57343) q then Inl UnicodeEncodeError
      else Inr (concat (map (\<lambda>c. if c = 32 then asc ''%20'' else [c]) q)))"

text \<open>
  Two queries in Greek that differ in letter case only: the letters omicron, delta,
  omicron, sigma in capitals, and the same letters in small ones with the sigma U+03C3.
  A category table whose one keyword is that word as it is written in small letters,
  with the final sigma U+03C2.
\<close>

definition query_capitals :: str where
  "query_capitals = [927, 916, 927, 931]"

definition query_small :: str where
  "query_small = [959, 948, 959, 963]"

definition street_table :: "(str \<times> str list) list" where
  "street_table = [(asc ''maps'', [[959, 948, 959, 962]])]"

definition street_categories :: "(str \<times> category_cfg) list" where
  "street_categories = [(asc ''maps'', \<lparr>cfg_keywords = Some [[959, 948, 959, 962]]\<rparr>)]"

section \<open>Evaluation\<close>

text \<open>
  The examples are evaluated by rewriting in two steps: first the definitions of the
  functions and of the Unicode excerpt, then the regular-expression search and the
  substring test on the closed terms that result.
\<close>

lemmas eval_defs = asc_def ucd_def lower_cp_def substring_score_def word_score_def normalize_text_def
  strip_chars_def
lemmas eval_search = re_search_def at_boundary_def sublist_Cons_right
lemmas eval_greek = ucd_greek_def final_sigma_def cased_def case_ignorable_def greek_letters_def
  lower_letter_def query_capitals_def query_small_def street_table_def street_categories_def


section \<open>Properties of category detection\<close>

text \<open>A state that no remaining entry beats is the result of the loop.\<close>

lemma best_category_unchanged:
  "\<forall>e \<in> set t. score (snd e) \<le> snd best \<Longrightarrow> best_category score t best = best"
proof (induction t arbitrary: best)
  case Nil
  then show ?case by simp
next
  case (Cons e t)
  obtain cat cfg where e: "e = (cat, cfg)" by (cases e)
  obtain bc bs where b: "best = (bc, bs)" by (cases best)
  from Cons.prems have "\<not> bs < score cfg" by (simp add: e b)
  moreover from Cons.prems have "\<forall>e \<in> set t. score (snd e) \<le> snd best" by simp
  ultimately show ?case using Cons.IH [of best] by (simp add: e b)
qed

lemma best_category_first_max:
  assumes "\<forall>e \<in> set pre. score (snd e) < score cfg"
    and "snd best < score cfg"
    and "\<forall>e \<in> set post. score (snd e) \<le> score cfg"
  shows "best_category score (pre @ (c, cfg) # post) best = (Some c, score cfg)"
  using assms
proof (induction pre arbitrary: best)
  case Nil
  obtain bc bs where b: "best = (bc, bs)" by (cases best)
  from Nil.prems(2) have "bs < score cfg" by (simp add: b)
  then show ?case
    using best_category_unchanged [of post score "(Some c, score cfg)"] Nil.prems(3)
    by (simp add: b)
next
  case (Cons e pre)
  obtain cat cfg' where e: "e = (cat, cfg')" by (cases e)
  obtain bc bs where b: "best = (bc, bs)" by (cases best)
  have lt: "score cfg' < score cfg" using Cons.prems(1) by (simp add: e)
  have rest: "\<forall>e \<in> set pre. score (snd e) < score cfg" using Cons.prems(1) by simp
  show ?case
  proof (cases "bs < score cfg'")
    case True
    then show ?thesis
      using Cons.IH [of "(Some cat, score cfg')"] rest lt Cons.prems(3) by (simp add: e b)
  next
    case False
    then show ?thesis
      using Cons.IH [of best] rest Cons.prems(2,3) by (simp add: e b)
  qed
qed

lemma best_category_sound:
  "best_category score t best = best' \<Longrightarrow>
     snd best \<le> snd best' \<and> (\<forall>e \<in> set t. score (snd e) \<le> snd best') \<and>
     (best' = best \<or> (\<exists>c cfg. (c, cfg) \<in> set t \<and> best' = (Some c, score cfg)))"
proof (induction t arbitrary: best)
  case Nil
  then show ?case by simp
next
  case (Cons e t)
  obtain cat cfg where e: "e = (cat, cfg)" by (cases e)
  obtain bc bs where b: "best = (bc, bs)" by (cases best)
  show ?case
  proof (cases "bs < score cfg")
    case True
    with Cons.prems have "best_category score t (Some cat, score cfg) = best'" by (simp add: e b)
    from Cons.IH [OF this] True show ?thesis by (auto simp: e b)
  next
    case False
    with Cons.prems have "best_category score t best = best'" by (simp add: e b)
    from Cons.IH [OF this] False show ?thesis by (auto simp: e b)
  qed
qed

lemma positive_best_strict_winner:
  assumes a: "(a, ka) \<in> set t" and pos: "0 < score ka"
    and win: "\<forall>(c, kc) \<in> set t. c \<noteq> a \<longrightarrow> score kc < score ka"
  shows "positive_best (best_category score t (None, 0)) = Some a"
proof -
  obtain bc bs where r: "best_category score t (None, 0) = (bc, bs)"
    by (cases "best_category score t (None, 0)")
  from best_category_sound [OF r]
  have le: "\<forall>e \<in> set t. score (snd e) \<le> bs"
    and alt: "(bc, bs) = (None, 0) \<or> (\<exists>c cfg. (c, cfg) \<in> set t \<and> (bc, bs) = (Some c, score cfg))"
    by auto
  from le a have ka: "score ka \<le> bs" by force
  with pos have bs: "0 < bs" by simp
  with alt obtain c cfg where c: "(c, cfg) \<in> set t" "bc = Some c" "bs = score cfg" by auto
  have "c = a"
  proof (rule ccontr)
    assume "c \<noteq> a"
    with win c(1) have "score cfg < score ka" by auto
    with ka c(3) show False by simp
  qed
  with bs c r show ?thesis by (simp add: positive_best_def)
qed

lemma positive_best_no_match:
  assumes "\<forall>(c, kc) \<in> set t. score kc = 0"
  shows "positive_best (best_category score t (None, 0)) = None"
proof -
  from assms have "\<forall>e \<in> set t. score (snd e) \<le> snd (None :: str option, 0 :: nat)" by auto
  from best_category_unchanged [OF this] show ?thesis by (simp add: positive_best_def)
qed

lemma positive_best_first_max:
  assumes "\<forall>e \<in> set pre. score (snd e) < score cfg"
    and "0 < score cfg"
    and "\<forall>e \<in> set post. score (snd e) \<le> score cfg"
  shows "positive_best (best_category score (pre @ (c, cfg) # post) (None, 0)) = Some c"
  using best_category_first_max [of pre score cfg "(None, 0)" post c] assms
  by (simp add: positive_best_def)


text \<open>
  C3. When the keywords of one category of the table match the query more often than those
  of every other category (with two categories in the query: the one with the higher
  count), detection returns that category; when no keyword of any category matches, as
  for the empty table, it returns \<open>None\<close>. The count is \<open>substring_score\<close> for
  \<open>detect_category\<close> and \<open>word_score\<close> for \<open>extract_category\<close>. Both functions are total:
  no input raises.
\<close>

theorem detect_higher_count_or_none:
  "((a, ka) \<in> set t \<and> 0 < substring_score U (str_lower U q) ka \<and>
      (\<forall>(c, kc) \<in> set t. c \<noteq> a \<longrightarrow>
         substring_score U (str_lower U q) kc < substring_score U (str_lower U q) ka)
      \<longrightarrow> detect_category U q t = Some a) \<and>
   ((\<forall>(c, kc) \<in> set t. substring_score U (str_lower U q) kc = 0)
      \<longrightarrow> detect_category U q t = None) \<and>
   ((a, cfg) \<in> set g \<and> 0 < word_score U (normalize_text U q) cfg \<and>
      (\<forall>(c, kc) \<in> set g. c \<noteq> a \<longrightarrow>
         word_score U (normalize_text U q) kc < word_score U (normalize_text U q) cfg)
      \<longrightarrow> extract_category U q g = Some a) \<and>
   ((\<forall>(c, kc) \<in> set g. word_score U (normalize_text U q) kc = 0)
      \<longrightarrow> extract_category U q g = None)"
  unfolding detect_category_def extract_category_def Let_def
  using positive_best_strict_winner [of a ka t "substring_score U (str_lower U q)"]
    positive_best_no_match [of t "substring_score U (str_lower U q)"]
    positive_best_strict_winner [of a cfg g "word_score U (normalize_text U q)"]
    positive_best_no_match [of g "word_score U (normalize_text U q)"]
  by blast

theorem detect_higher_count_or_none_witness:
  "detect_category ucd (asc ''Laptop bag or a mobile or a shirt'')
     [(asc ''fashion'', [asc ''shirt'', asc ''saree'']),
      (asc ''electronics'', [asc ''Laptop'', asc ''mobile''])] = Some (asc ''electronics'') \<and>
   detect_category ucd (asc ''running shoes'')
     [(asc ''fashion'', [asc ''shirt'', asc ''saree'']),
      (asc ''electronics'', [asc ''Laptop'', asc ''mobile''])] = None \<and>
   detect_category ucd (asc ''running shoes'') [] = None \<and>
   extract_category ucd (asc ''Laptop bag or a mobile or a shirt'')
     [(asc ''fashion'', \<lparr>cfg_keywords = Some [asc ''shirt'', asc ''saree'']\<rparr>),
      (asc ''electronics'', \<lparr>cfg_keywords = Some [asc ''Laptop'', asc ''mobile'']\<rparr>)]
     = Some (asc ''electronics'') \<and>
   extract_category ucd (asc ''running shoes'')
     [(asc ''fashion'', \<lparr>cfg_keywords = Some [asc ''shirt'', asc ''saree'']\<rparr>),
      (asc ''electronics'', \<lparr>cfg_keywords = None\<rparr>)] = None"
proof -
  let ?q = "asc ''Laptop bag or a mobile or a shirt''"
  let ?t = "[(asc ''fashion'', [asc ''shirt'', asc ''saree'']),
             (asc ''electronics'', [asc ''Laptop'', asc ''mobile''])]"
  let ?g = "[(asc ''fashion'', \<lparr>cfg_keywords = Some [asc ''shirt'', asc ''saree'']\<rparr>),
             (asc ''electronics'', \<lparr>cfg_keywords = Some [asc ''Laptop'', asc ''mobile'']\<rparr>)]"
  let ?n = "[(asc ''fashion'', \<lparr>cfg_keywords = Some [asc ''shirt'', asc ''saree'']\<rparr>),
              (asc ''electronics'', \<lparr>cfg_keywords = None\<rparr>)]"
  let ?e = "asc ''electronics''"
  have h1: "(?e, [asc ''Laptop'', asc ''mobile'']) \<in> set ?t \<and>
      0 < substring_score ucd (str_lower ucd ?q) [asc ''Laptop'', asc ''mobile''] \<and>
      (\<forall>(c, kc) \<in> set ?t. c \<noteq> ?e \<longrightarrow>
         substring_score ucd (str_lower ucd ?q) kc
           < substring_score ucd (str_lower ucd ?q) [asc ''Laptop'', asc ''mobile''])"
    apply (simp add: eval_defs)
    apply (simp add: eval_search)?
    done
  have h2: "\<forall>(c, kc) \<in> set ?t. substring_score ucd (str_lower ucd (asc ''running shoes'')) kc = 0"
    apply (simp add: eval_defs)
    apply (simp add: eval_search)?
    done
  have h3: "(?e, \<lparr>cfg_keywords = Some [asc ''Laptop'', asc ''mobile'']\<rparr>) \<in> set ?g \<and>
      0 < word_score ucd (normalize_text ucd ?q) \<lparr>cfg_keywords = Some [asc ''Laptop'', asc ''mobile'']\<rparr> \<and>
      (\<forall>(c, kc) \<in> set ?g. c \<noteq> ?e \<longrightarrow>
         word_score ucd (normalize_text ucd ?q) kc
           < word_score ucd (normalize_text ucd ?q) \<lparr>cfg_keywords = Some [asc ''Laptop'', asc ''mobile'']\<rparr>)"
    apply (simp add: eval_defs)
    apply (simp add: eval_search)?
    done
  have h4: "\<forall>(c, kc) \<in> set ?n. word_score ucd (normalize_text ucd (asc ''running shoes'')) kc = 0"
    apply (simp add: eval_defs)
    apply (simp add: eval_search)?
    done
  have h5: "\<forall>(c, kc) \<in> set ([] :: (str \<times> str list) list).
      substring_score ucd (str_lower ucd (asc ''running shoes'')) kc = 0"
    by simp
  from h1 detect_higher_count_or_none [of ?e "[asc ''Laptop'', asc ''mobile'']" ?t ucd ?q]
  have c1: "detect_category ucd ?q ?t = Some ?e" by blast
  from h2 detect_higher_count_or_none [of _ _ ?t ucd "asc ''running shoes''"]
  have c2: "detect_category ucd (asc ''running shoes'') ?t = None" by blast
  from h5 detect_higher_count_or_none [of _ _ "[]" ucd "asc ''running shoes''"]
  have c3: "detect_category ucd (asc ''running shoes'') [] = None" by blast
  from h3 detect_higher_count_or_none [of ?e _ _ ucd ?q "\<lparr>cfg_keywords = Some [asc ''Laptop'', asc ''mobile'']\<rparr>" ?g]
  have c4: "extract_category ucd ?q ?g = Some ?e" by blast
  from h4 detect_higher_count_or_none [of _ _ _ ucd "asc ''running shoes''" _ ?n]
  have c5: "extract_category ucd (asc ''running shoes'') ?n = None" by blast
  from c1 c2 c3 c4 c5 show ?thesis by blast
qed

text \<open>
  C4. When several categories reach the same highest positive count, the one that comes
  first in the table is returned: an entry is the result when every entry before it has
  a strictly smaller count and no entry after it has a greater one, so a later entry
  replaces the current best only with a strictly higher count.
\<close>

theorem detect_first_seen_wins_ties:
  "((\<forall>e \<in> set pre. substring_score U (str_lower U q) (snd e) < substring_score U (str_lower U q) ka) \<and>
    0 < substring_score U (str_lower U q) ka \<and>
    (\<forall>e \<in> set post. substring_score U (str_lower U q) (snd e) \<le> substring_score U (str_lower U q) ka)
      \<longrightarrow> detect_category U q (pre @ (a, ka) # post) = Some a) \<and>
   ((\<forall>e \<in> set gpre. word_score U (normalize_text U q) (snd e) < word_score U (normalize_text U q) cfg) \<and>
    0 < word_score U (normalize_text U q) cfg \<and>
    (\<forall>e \<in> set gpost. word_score U (normalize_text U q) (snd e) \<le> word_score U (normalize_text U q) cfg)
      \<longrightarrow> extract_category U q (gpre @ (a, cfg) # gpost) = Some a)"
  unfolding detect_category_def extract_category_def Let_def
  using positive_best_first_max [of pre "substring_score U (str_lower U q)" ka post a]
    positive_best_first_max [of gpre "word_score U (normalize_text U q)" cfg gpost a]
  by blast

theorem detect_first_seen_wins_ties_witness:
  "detect_category ucd (asc ''shirt or laptop'')
     [(asc ''fashion'', [asc ''shirt'']), (asc ''electronics'', [asc ''laptop''])]
     = Some (asc ''fashion'') \<and>
   detect_category ucd (asc ''shirt or laptop'')
     [(asc ''electronics'', [asc ''laptop'']), (asc ''fashion'', [asc ''shirt''])]
     = Some (asc ''electronics'') \<and>
   extract_category ucd (asc ''shirt or laptop'')
     [(asc ''fashion'', \<lparr>cfg_keywords = Some [asc ''shirt'']\<rparr>),
      (asc ''electronics'', \<lparr>cfg_keywords = Some [asc ''laptop'']\<rparr>)]
     = Some (asc ''fashion'') \<and>
   extract_category ucd (asc ''shirt or laptop'')
     [(asc ''electronics'', \<lparr>cfg_keywords = Some [asc ''laptop'']\<rparr>),
      (asc ''fashion'', \<lparr>cfg_keywords = Some [asc ''shirt'']\<rparr>)]
     = Some (asc ''electronics'')"
proof -
  let ?q = "asc ''shirt or laptop''"
  let ?f = "asc ''fashion''" and ?e = "asc ''electronics''"
  let ?kf = "[asc ''shirt'']" and ?ke = "[asc ''laptop'']"
  let ?cf = "\<lparr>cfg_keywords = Some [asc ''shirt'']\<rparr>"
  let ?ce = "\<lparr>cfg_keywords = Some [asc ''laptop'']\<rparr>"
  have sf: "substring_score ucd (str_lower ucd ?q) ?kf = 1"
    apply (simp add: eval_defs)
    apply (simp add: eval_search)?
    done
  have se: "substring_score ucd (str_lower ucd ?q) ?ke = 1"
    apply (simp add: eval_defs)
    apply (simp add: eval_search)?
    done
  have wf: "word_score ucd (normalize_text ucd ?q) ?cf = 1"
    apply (simp add: eval_defs)
    apply (simp add: eval_search)?
    done
  have we: "word_score ucd (normalize_text ucd ?q) ?ce = 1"
    apply (simp add: eval_defs)
    apply (simp add: eval_search)?
    done
  from sf se detect_first_seen_wins_ties [of "[]" ucd ?q ?kf "[(?e, ?ke)]" ?f]
  have c1: "detect_category ucd ?q [(?f, ?kf), (?e, ?ke)] = Some ?f" by simp
  from sf se detect_first_seen_wins_ties [of "[]" ucd ?q ?ke "[(?f, ?kf)]" ?e]
  have c2: "detect_category ucd ?q [(?e, ?ke), (?f, ?kf)] = Some ?e" by simp
  from wf we detect_first_seen_wins_ties [of _ ucd ?q _ _ ?f "[]" ?cf "[(?e, ?ce)]"]
  have c3: "extract_category ucd ?q [(?f, ?cf), (?e, ?ce)] = Some ?f" by simp
  from wf we detect_first_seen_wins_ties [of _ ucd ?q _ _ ?e "[]" ?ce "[(?f, ?cf)]"]
  have c4: "extract_category ucd ?q [(?e, ?ce), (?f, ?cf)] = Some ?e" by simp
  from c1 c2 c3 c4 show ?thesis by blast
qed

text \<open>
  Tables whose entries agree in the category names and in the counts give the same result.
\<close>

lemma best_category_rel:
  "list_all2 (\<lambda>x y. fst x = fst y \<and> s1 (snd x) = s2 (snd y)) t1 t2 \<Longrightarrow>
     best_category s1 t1 best = best_category s2 t2 best"
proof (induction t1 t2 arbitrary: best rule: list_all2_induct)
  case Nil
  then show ?case by simp
next
  case (Cons x xs y ys)
  obtain c k where x: "x = (c, k)" by (cases x)
  obtain c' k' where y: "y = (c', k')" by (cases y)
  obtain bc bs where b: "best = (bc, bs)" by (cases best)
  from Cons.hyps(1) have eq: "c' = c" "s2 k' = s1 k" by (simp_all add: x y)
  show ?case using Cons.IH by (simp add: x y b eq)
qed

lemma substring_score_lower:
  "map (str_lower U) k1 = map (str_lower U) k2 \<Longrightarrow>
     substring_score U text k1 = substring_score U text k2"
proof -
  assume eq: "map (str_lower U) k1 = map (str_lower U) k2"
  have "\<And>k. substring_score U text k
      = length (filter (\<lambda>l. sublist l text) (map (str_lower U) k))"
    by (simp add: substring_score_def filter_map o_def)
  then show ?thesis by (simp only: eq)
qed

lemma word_score_lower:
  "map_option (map (str_lower U)) (cfg_keywords g1) = map_option (map (str_lower U)) (cfg_keywords g2) \<Longrightarrow>
     word_score U q g1 = word_score U q g2"
proof -
  assume eq: "map_option (map (str_lower U)) (cfg_keywords g1)
    = map_option (map (str_lower U)) (cfg_keywords g2)"
  have "\<And>g. word_score U q g
      = length (filter (\<lambda>l. re_search U (Seq Bnd (Seq (Lit l) Bnd)) q)
          (case map_option (map (str_lower U)) (cfg_keywords g) of None \<Rightarrow> [] | Some ls \<Rightarrow> ls))"
    by (simp add: word_score_def filter_map o_def split: option.splits)
  then show ?thesis by (simp only: eq)
qed

text \<open>
  C10, as the code has it. Two queries that \<open>str.lower()\<close> maps to the same string are
  detected alike, and so are two tables with the same category names whose keywords
  \<open>str.lower()\<close> maps to the same strings. The lower-cased form is all that the two
  functions see of the letter case.
\<close>

theorem detect_case_insensitive:
  assumes "str_lower U q1 = str_lower U q2"
  shows "(list_all2 (\<lambda>x y. fst x = fst y \<and> map (str_lower U) (snd x) = map (str_lower U) (snd y)) t1 t2
           \<longrightarrow> detect_category U q1 t1 = detect_category U q2 t2) \<and>
         (list_all2 (\<lambda>x y. fst x = fst y \<and>
              map_option (map (str_lower U)) (cfg_keywords (snd x))
                = map_option (map (str_lower U)) (cfg_keywords (snd y))) g1 g2
           \<longrightarrow> extract_category U q1 g1 = extract_category U q2 g2)"
proof (intro conjI impI)
  assume r: "list_all2 (\<lambda>x y. fst x = fst y \<and> map (str_lower U) (snd x) = map (str_lower U) (snd y)) t1 t2"
  have "list_all2 (\<lambda>x y. fst x = fst y \<and>
      substring_score U (str_lower U q2) (snd x) = substring_score U (str_lower U q2) (snd y)) t1 t2"
    by (rule list_all2_mono [OF r]) (auto dest: substring_score_lower)
  from best_category_rel [OF this] assms
  show "detect_category U q1 t1 = detect_category U q2 t2"
    by (simp add: detect_category_def)
next
  assume r: "list_all2 (\<lambda>x y. fst x = fst y \<and>
              map_option (map (str_lower U)) (cfg_keywords (snd x))
                = map_option (map (str_lower U)) (cfg_keywords (snd y))) g1 g2"
  have n: "normalize_text U q1 = normalize_text U q2"
    using assms by (simp add: normalize_text_def)
  have "list_all2 (\<lambda>x y. fst x = fst y \<and>
      word_score U (normalize_text U q2) (snd x) = word_score U (normalize_text U q2) (snd y)) g1 g2"
    by (rule list_all2_mono [OF r]) (auto dest: word_score_lower)
  from best_category_rel [OF this] n
  show "extract_category U q1 g1 = extract_category U q2 g2"
    by (simp add: extract_category_def)
qed

theorem detect_case_insensitive_witness:
  "str_lower ucd (asc ''Gaming LAPTOP'') = str_lower ucd (asc ''gaming laptop'') \<and>
   detect_category ucd (asc ''Gaming LAPTOP'') [(asc ''electronics'', [asc ''LapTop''])]
     = detect_category ucd (asc ''gaming laptop'') [(asc ''electronics'', [asc ''laptop''])] \<and>
   extract_category ucd (asc ''Gaming LAPTOP'')
       [(asc ''electronics'', \<lparr>cfg_keywords = Some [asc ''LapTop'']\<rparr>)]
     = extract_category ucd (asc ''gaming laptop'')
       [(asc ''electronics'', \<lparr>cfg_keywords = Some [asc ''laptop'']\<rparr>)]"
proof -
  let ?a = "asc ''Gaming LAPTOP''" and ?b = "asc ''gaming laptop''"
  let ?t = "[(asc ''electronics'', [asc ''LapTop''])]"
  let ?u = "[(asc ''electronics'', [asc ''laptop''])]"
  let ?g = "[(asc ''electronics'', \<lparr>cfg_keywords = Some [asc ''LapTop'']\<rparr>)]"
  let ?h = "[(asc ''electronics'', \<lparr>cfg_keywords = Some [asc ''laptop'']\<rparr>)]"
  have q: "str_lower ucd ?a = str_lower ucd ?b"
    by (simp add: asc_def ucd_def lower_cp_def)
  have t: "list_all2 (\<lambda>x y. fst x = fst y \<and> map (str_lower ucd) (snd x) = map (str_lower ucd) (snd y)) ?t ?u"
    by (simp add: asc_def ucd_def lower_cp_def)
  have g: "list_all2 (\<lambda>x y. fst x = fst y \<and>
              map_option (map (str_lower ucd)) (cfg_keywords (snd x))
                = map_option (map (str_lower ucd)) (cfg_keywords (snd y))) ?g ?h"
    by (simp add: asc_def ucd_def lower_cp_def)
  from detect_case_insensitive [OF q, of ?t ?u ?g ?h] t g q show ?thesis by blast
qed

text \<open>
  C10 as stated speaks of queries that differ only in letter case. The two Greek queries
  are equal letter by letter once each letter is lowered, but \<open>str.lower()\<close> ends the first
  with the final sigma and leaves the small sigma of the second: the keyword, written with
  the final sigma, is found in the first query and not in the second.
\<close>

theorem detect_final_sigma_counterexample:
  "map lower_letter query_capitals = map lower_letter query_small \<and>
   detect_category ucd_greek query_capitals street_table = Some (asc ''maps'') \<and>
   detect_category ucd_greek query_small street_table = None \<and>
   extract_category ucd_greek query_capitals street_categories = Some (asc ''maps'') \<and>
   extract_category ucd_greek query_small street_categories = None"
  apply (simp add: detect_category_def extract_category_def positive_best_def eval_greek
      eval_defs Let_def)
  apply (simp add: eval_search)?
  done

section \<open>Properties of slug construction\<close>

text \<open>
  What the two substitutions keep and produce, and what \<open>strip\<close> leaves at the ends.
\<close>

lemma re_sub_runs_1:
  "re_sub_runs (Suc 0) P rep (c # cs) =
     (if P c then rep @ re_sub_runs (Suc 0) P rep (dropWhile P cs)
      else c # re_sub_runs (Suc 0) P rep cs)"
  by simp

lemma set_re_sub_runs_1:
  "set (re_sub_runs (Suc 0) P rep s) \<subseteq> set rep \<union> {c \<in> set s. \<not> P c}"
proof (induction "length s" arbitrary: s rule: less_induct)
  case less
  show ?case
  proof (cases s)
    case Nil
    then show ?thesis by simp
  next
    case (Cons c cs)
    show ?thesis
    proof (cases "P c")
      case True
      have "length (dropWhile P cs) < length s"
        using length_dropWhile_le [of P cs] by (simp add: Cons)
      from less [OF this] have "set (re_sub_runs (Suc 0) P rep (dropWhile P cs))
          \<subseteq> set rep \<union> {c \<in> set cs. \<not> P c}"
        by (auto dest: set_dropWhileD)
      with True show ?thesis by (auto simp: Cons re_sub_runs_1 simp del: re_sub_runs.simps)
    next
      case False
      have "length cs < length s" by (simp add: Cons)
      from less [OF this] False show ?thesis
        by (auto simp: Cons re_sub_runs_1 simp del: re_sub_runs.simps)
    qed
  qed
qed

lemma set_re_sub_runs_plus:
  "set (re_sub_runs 1 P rep s) \<subseteq> set rep \<union> {c \<in> set s. \<not> P c}"
  using set_re_sub_runs_1 [of P rep s] by simp

lemma re_sub_runs_all:
  assumes "\<forall>c \<in> set s. P c"
  shows "re_sub_runs 1 P rep s = (if s = [] then [] else rep)"
proof (cases s)
  case Nil
  then show ?thesis by simp
next
  case (Cons c cs)
  from assms have c: "P c" by (simp add: Cons)
  from assms have d: "dropWhile P cs = []" by (simp add: Cons)
  show ?thesis by (simp add: Cons c d)
qed

lemma re_sub_runs_hyphen:
  "re_sub_runs 2 (\<lambda>c. c = h) [h] (c # cs) =
     (if c = h then h # re_sub_runs 2 (\<lambda>c. c = h) [h] (dropWhile (\<lambda>c. c = h) cs)
      else c # re_sub_runs 2 (\<lambda>c. c = h) [h] cs)"
proof (cases "c = h")
  case False
  then show ?thesis by simp
next
  case True
  show ?thesis
  proof (cases "2 \<le> length (takeWhile (\<lambda>c. c = h) (c # cs))")
    case True
    with \<open>c = h\<close> show ?thesis by simp
  next
    case False
    with \<open>c = h\<close> have "takeWhile (\<lambda>c. c = h) cs = []" by (cases "takeWhile (\<lambda>c. c = h) cs") auto
    with \<open>c = h\<close> False show ?thesis by simp
  qed
qed

lemma set_re_sub_runs_hyphen:
  "set (re_sub_runs 2 (\<lambda>c. c = h) [h] s) \<subseteq> set s"
proof (induction "length s" arbitrary: s rule: less_induct)
  case less
  show ?case
  proof (cases s)
    case Nil
    then show ?thesis by simp
  next
    case (Cons c cs)
    have 1: "length (dropWhile (\<lambda>c. c = h) cs) < length s"
      using length_dropWhile_le [of "\<lambda>c. c = h" cs] by (simp add: Cons)
    have 2: "length cs < length s" by (simp add: Cons)
    from less [OF 1] less [OF 2] show ?thesis
      by (auto simp: Cons re_sub_runs_hyphen simp del: re_sub_runs.simps dest: set_dropWhileD)
  qed
qed

lemma no_double_re_sub_runs_hyphen:
  "\<not> sublist [h, h] (re_sub_runs 2 (\<lambda>c. c = h) [h] s) \<and>
   (prefix [h] (re_sub_runs 2 (\<lambda>c. c = h) [h] s) \<longrightarrow> prefix [h] s)"
proof (induction "length s" arbitrary: s rule: less_induct)
  case less
  show ?case
  proof (cases s)
    case Nil
    then show ?thesis by simp
  next
    case (Cons c cs)
    let ?d = "dropWhile (\<lambda>c. c = h) cs"
    have 1: "length ?d < length s"
      using length_dropWhile_le [of "\<lambda>c. c = h" cs] by (simp add: Cons)
    have 2: "length cs < length s" by (simp add: Cons)
    have d: "\<not> prefix [h] ?d"
    proof (cases ?d)
      case Nil
      show ?thesis by (simp add: Nil)
    next
      case (Cons x xs)
      with hd_dropWhile [of "\<lambda>c. c = h" cs] have "x \<noteq> h" by simp
      then show ?thesis by (simp add: Cons)
    qed
    show ?thesis
    proof (cases "c = h")
      case True
      from less [OF 1] d have "\<not> sublist [h, h] (re_sub_runs 2 (\<lambda>c. c = h) [h] ?d)"
        and "\<not> prefix [h] (re_sub_runs 2 (\<lambda>c. c = h) [h] ?d)" by auto
      with True show ?thesis
        by (auto simp: Cons re_sub_runs_hyphen sublist_Cons_right simp del: re_sub_runs.simps)
    next
      case False
      from less [OF 2] have "\<not> sublist [h, h] (re_sub_runs 2 (\<lambda>c. c = h) [h] cs)" by simp
      with False show ?thesis
        by (auto simp: Cons re_sub_runs_hyphen sublist_Cons_right simp del: re_sub_runs.simps)
    qed
  qed
qed

lemma sublist_strip_chars: "sublist (strip_chars P s) s"
proof -
  have "sublist (rev (dropWhile P (rev (dropWhile P s)))) (rev (rev (dropWhile P s)))"
    unfolding sublist_rev by (rule sublist_dropWhile)
  then have "sublist (strip_chars P s) (dropWhile P s)" by (simp add: strip_chars_def)
  then show ?thesis using sublist_dropWhile [of P s] by (rule sublist_order.order.trans)
qed

lemma prefix_single: "prefix [h] xs \<longleftrightarrow> xs \<noteq> [] \<and> hd xs = h"
  by (cases xs) auto

lemma suffix_single: "suffix [h] xs \<longleftrightarrow> xs \<noteq> [] \<and> last xs = h"
  by (cases xs rule: rev_cases) auto

lemma strip_chars_hd_last:
  assumes "strip_chars P s \<noteq> []"
  shows "\<not> P (hd (strip_chars P s)) \<and> \<not> P (last (strip_chars P s))"
proof -
  define t where "t = dropWhile P s"
  define u where "u = dropWhile P (rev t)"
  have r: "strip_chars P s = rev u" by (simp only: strip_chars_def t_def u_def)
  with assms have ne: "u \<noteq> []" by simp
  then have "dropWhile P (rev t) \<noteq> []" unfolding u_def .
  then have "\<not> P (hd (dropWhile P (rev t)))" by (rule hd_dropWhile)
  then have hu: "\<not> P (hd u)" unfolding u_def .
  have "suffix u (rev t)" unfolding u_def by (rule suffix_dropWhile)
  then obtain zs where z: "rev t = zs @ u" unfolding suffix_def by blast
  from ne have "last (zs @ u) = last u" by simp
  with z have lu: "last u = hd t" by (simp add: last_rev [symmetric])
  from z ne have "rev t \<noteq> []" by simp
  then have "t \<noteq> []" by simp
  then have "dropWhile P s \<noteq> []" unfolding t_def .
  then have "\<not> P (hd (dropWhile P s))" by (rule hd_dropWhile)
  then have ht: "\<not> P (hd t)" unfolding t_def .
  from hu ht lu show ?thesis by (simp add: r hd_rev last_rev)
qed

lemma strip_chars_ends:
  "\<not> prefix [h] (strip_chars (\<lambda>c. c = h) s) \<and> \<not> suffix [h] (strip_chars (\<lambda>c. c = h) s)"
  using strip_chars_hd_last [of "\<lambda>c. c = h" s]
  unfolding prefix_single suffix_single by blast

text \<open>
  C7. Whatever the input and the Unicode tables, a slug consists of the letters \<open>a\<close> to
  \<open>z\<close>, the digits and hyphens (code point 45), it neither starts nor ends with a hyphen,
  and no two hyphens are adjacent.
\<close>

theorem to_slug_wellformed:
  "(\<forall>c \<in> set (to_slug U s). slug_char c \<or> c = 45) \<and>
   \<not> prefix [45] (to_slug U s) \<and> \<not> suffix [45] (to_slug U s) \<and>
   \<not> sublist [45, 45] (to_slug U s)"
proof -
  let ?s1 = "re_sub_runs 1 (\<lambda>c. \<not> slug_char c) (asc ''-'') (normalize_text U s)"
  let ?s2 = "re_sub_runs 2 (\<lambda>c. c = 45) (asc ''-'') ?s1"
  let ?s3 = "strip_chars (\<lambda>c. c = 45) ?s2"
  have h: "asc ''-'' = [45]" by (simp add: asc_def)
  have c1: "\<forall>c \<in> set ?s1. slug_char c \<or> c = 45"
    using set_re_sub_runs_plus [of "\<lambda>c. \<not> slug_char c" "asc ''-''" "normalize_text U s"]
    by (auto simp: h)
  have c2: "\<forall>c \<in> set ?s2. slug_char c \<or> c = 45"
    using set_re_sub_runs_hyphen [of 45 ?s1] c1 unfolding h by blast
  have sub: "sublist ?s3 ?s2" by (rule sublist_strip_chars)
  have c3: "\<forall>c \<in> set ?s3. slug_char c \<or> c = 45"
    using set_mono_sublist [OF sub] c2 by blast
  have d2: "\<not> sublist [45, 45] ?s2"
    using no_double_re_sub_runs_hyphen [of 45 ?s1] unfolding h by simp
  have d3: "\<not> sublist [45, 45] ?s3"
    using d2 sub sublist_order.order.trans by blast
  have e3: "\<not> prefix [45] ?s3 \<and> \<not> suffix [45] ?s3"
    by (rule strip_chars_ends)
  have search: "(\<forall>c \<in> set (asc ''search''). slug_char c \<or> c = 45) \<and>
      \<not> prefix [45] (asc ''search'') \<and> \<not> suffix [45] (asc ''search'') \<and>
      \<not> sublist [45, 45] (asc ''search'')"
    by (simp add: asc_def slug_char_def sublist_Cons_right suffix_to_prefix)
  show ?thesis
  proof (cases "?s3 = []")
    case True
    then have "to_slug U s = asc ''search''" by (simp add: to_slug_def Let_def)
    with search show ?thesis by simp
  next
    case False
    then have "to_slug U s = ?s3" by (simp add: to_slug_def Let_def)
    with c3 d3 e3 show ?thesis by simp
  qed
qed

theorem to_slug_wellformed_witness:
  "to_slug ucd (asc ''  Blue  Cotton--Shirt (XL)!'') = asc ''blue-cotton-shirt-xl'' \<and>
   \<not> prefix [45] (to_slug ucd (asc ''  Blue  Cotton--Shirt (XL)!'')) \<and>
   \<not> suffix [45] (to_slug ucd (asc ''  Blue  Cotton--Shirt (XL)!'')) \<and>
   \<not> sublist [45, 45] (to_slug ucd (asc ''  Blue  Cotton--Shirt (XL)!''))"
proof -
  have v: "to_slug ucd (asc ''  Blue  Cotton--Shirt (XL)!'') = asc ''blue-cotton-shirt-xl''"
    by (simp add: to_slug_def normalize_text_def ucd_def lower_cp_def strip_chars_def
        slug_char_def asc_def)
  from to_slug_wellformed [of ucd "asc ''  Blue  Cotton--Shirt (XL)!''"] v
  show ?thesis by blast
qed

lemma set_strip_chars: "set (strip_chars P s) \<subseteq> set s"
  by (rule set_mono_sublist [OF sublist_strip_chars])

text \<open>
  C9, as the code has it. A slug is never empty, and it is \<open>"search"\<close> when the
  lower-cased input has no letter \<open>a\<close> to \<open>z\<close> and no digit.
\<close>

theorem to_slug_nonempty:
  "to_slug U s \<noteq> [] \<and>
   ((\<forall>c \<in> set (str_lower U s). \<not> slug_char c) \<longrightarrow> to_slug U s = asc ''search'')"
proof (intro conjI impI)
  show "to_slug U s \<noteq> []" by (simp add: to_slug_def Let_def asc_def)
next
  assume a: "\<forall>c \<in> set (str_lower U s). \<not> slug_char c"
  let ?n = "normalize_text U s"
  have "set ?n \<subseteq> set (asc '' '') \<union> set (str_lower U s)"
    unfolding normalize_text_def
    using set_strip_chars [of "is_space U" "re_sub_runs 1 (is_space U) (asc '' '') (str_lower U s)"]
      set_re_sub_runs_plus [of "is_space U" "asc '' ''" "str_lower U s"] by blast
  with a have n: "\<forall>c \<in> set ?n. \<not> slug_char c" by (auto simp: asc_def slug_char_def)
  have s1: "re_sub_runs 1 (\<lambda>c. \<not> slug_char c) (asc ''-'') ?n = (if ?n = [] then [] else asc ''-'')"
    using re_sub_runs_all [of ?n "\<lambda>c. \<not> slug_char c" "asc ''-''"] n by blast
  have "strip_chars (\<lambda>c. c = 45) (re_sub_runs 2 (\<lambda>c. c = 45) (asc ''-'')
      (re_sub_runs 1 (\<lambda>c. \<not> slug_char c) (asc ''-'') ?n)) = []"
    unfolding s1 by (simp add: asc_def strip_chars_def)
  then show "to_slug U s = asc ''search''" by (simp add: to_slug_def Let_def)
qed

theorem to_slug_nonempty_witness:
  "to_slug ucd (asc ''?! #'') \<noteq> [] \<and> to_slug ucd (asc ''?! #'') = asc ''search''"
proof -
  have h: "\<forall>c \<in> set (str_lower ucd (asc ''?! #'')). \<not> slug_char c"
    by (simp add: ucd_def lower_cp_def asc_def slug_char_def)
  from to_slug_nonempty [of ucd "asc ''?! #''"] h show ?thesis by blast
qed

text \<open>
  C9 as stated speaks of the input, not of its lower case. The input U+212A (KELVIN SIGN)
  is no ASCII letter or digit, \<open>str.lower()\<close> maps it to \<open>k\<close>, and the slug is \<open>"k"\<close>.
\<close>

theorem to_slug_kelvin_counterexample:
  "\<not> (48 \<le> (8490 :: nat) \<and> (8490 :: nat) \<le> 57 \<or> 65 \<le> (8490 :: nat) \<and> (8490 :: nat) \<le> 90
        \<or> 97 \<le> (8490 :: nat) \<and> (8490 :: nat) \<le> 122) \<and>
   to_slug ucd [8490] = asc ''k'' \<and> to_slug ucd [8490] \<noteq> asc ''search''"
  by (simp add: to_slug_def normalize_text_def ucd_def lower_cp_def strip_chars_def
      slug_char_def asc_def)

section \<open>Properties of the deep links\<close>

text \<open>
  C6, as the code has it. When \<open>urlparse\<close> gives the base URL a host, \<open>quote\<close> encodes
  the normalized query, and none of the known retailer domains occurs in the lower-cased
  host as a substring, the link is the base URL itself, for every site name and category.
\<close>

theorem build_deep_link_unrecognized_host:
  assumes "netloc base_url = Inr nl"
    and "quote (normalize_text U query) = Inr q_enc"
    and "\<forall>d \<in> set known_retailer_domains. \<not> sublist d (str_lower U nl)"
  shows "build_deep_link U netloc quote site_name base_url query category = Inr base_url"
  using assms by (simp add: build_deep_link_def known_retailer_domains_def Let_def)

theorem build_deep_link_unrecognized_host_witness:
  "build_deep_link ucd netloc_example quote_example (asc ''Example Shop'')
     (asc ''https://shop.example.org/'') (asc ''red shoes'') (asc ''fashion'')
     = Inr (asc ''https://shop.example.org/'')"
proof -
  have n: "netloc_example (asc ''https://shop.example.org/'') = Inr (asc ''Shop.Example.org'')"
    by (simp add: netloc_example_def)
  have q: "quote_example (normalize_text ucd (asc ''red shoes'')) = Inr (asc ''red%20shoes'')"
    by (simp add: quote_example_def eval_defs)
  have h: "\<forall>d \<in> set known_retailer_domains. \<not> sublist d (str_lower ucd (asc ''Shop.Example.org''))"
    apply (simp add: known_retailer_domains_def asc_def ucd_def lower_cp_def)
    apply (simp add: sublist_Cons_right)
    done
  from n q h show ?thesis by (rule build_deep_link_unrecognized_host)
qed

text \<open>
  C6 as stated speaks of a host that is not in the table, and of every query. The host
  \<open>notamazon.in.evil.example\<close> is none of the nine domains, yet \<open>amazon.in\<close> occurs in
  it, and the link is Amazon's search page, not the base URL. And for a host in which no
  domain occurs, a query that holds the surrogate U+D800 gives no link: \<open>quote\<close> raises
  before the host is looked at.
\<close>

theorem build_deep_link_counterexample:
  "asc ''notamazon.in.evil.example'' \<notin> set known_retailer_domains \<and>
   netloc_example (asc ''https://notamazon.in.evil.example/'')
     = Inr (asc ''notamazon.in.evil.example'') \<and>
   build_deep_link ucd netloc_example quote_example (asc ''Evil'')
     (asc ''https://notamazon.in.evil.example/'') (asc ''red shoes'') (asc ''electronics'')
     = Inr (asc ''https://www.amazon.in/s?k=red%20shoes'') \<and>
   asc ''Shop.Example.org'' \<notin> set known_retailer_domains \<and>
   netloc_example (asc ''https://shop.example.org/'') = Inr (asc ''Shop.Example.org'') \<and>
   build_deep_link ucd netloc_example quote_example (asc ''Example Shop'')
     (asc ''https://shop.example.org/'') [55296] (asc ''fashion'')
     = Inl UnicodeEncodeError"
  apply (simp add: build_deep_link_def netloc_example_def quote_example_def
      known_retailer_domains_def eval_defs)
  apply (simp add: sublist_Cons_right asc_def)?
  done

section \<open>Properties of the reasons\<close>

text \<open>The keys that the two loops over a dictionary leave.\<close>

lemma keys_fallback_loop:
  "fst ` set (foldl (\<lambda>reasons w. AList.update (name w) (f w) reasons) acc ws)
     = fst ` set acc \<union> name ` set ws"
  by (induction ws arbitrary: acc) (auto simp: dom_update)

lemma keys_filtered_loop:
  "fst ` set (foldl (\<lambda>filtered (k, v).
       if k \<in> A then AList.update k (g v) filtered else filtered) acc members)
     \<subseteq> fst ` set acc \<union> A"
proof (induction members arbitrary: acc)
  case Nil
  then show ?case by simp
next
  case (Cons m members)
  obtain k v where m: "m = (k, v)" by (cases m)
  show ?case
  proof (cases "k \<in> A")
    case True
    with Cons.IH [of "AList.update k (g v) acc"] show ?thesis
      by (auto simp: m dom_update)
  next
    case False
    with Cons.IH [of acc] show ?thesis by (simp add: m)
  qed
qed

text \<open>
  The chain that the function builds raises \<open>KeyError\<close> on every call, whatever the model
  is: the dictionary it is invoked with has no entry for the fourth field of the template.
\<close>

lemma prompt_chain_raises: "prompt_chain llm vars = Inl KeyError"
  by (simp add: prompt_chain_def prompt_template_def invoke_dict_def asc_def)

lemmas eval_reasons = generate_reasons_for_websites_def model_reasons_def
  build_fallback_reasons_def fallback_sentence_def get_strengths_def two_sites_def
  loads_example_def py_str_def chain_timeout_def chain_empty_def repr_example_def


text \<open>
  C8. Every key of the dictionary that \<open>generate_reasons_for_websites\<close> returns is the
  name of a site of the input list, whether the dictionary comes from the model's answer or
  from the fallback: a name that only the model mentions is dropped.
\<close>

theorem generate_reasons_keys_are_site_names:
  "fst ` set (generate_reasons_for_websites chain json_loads repr user_query category websites)
     \<subseteq> name ` set websites"
proof (cases "model_reasons chain json_loads repr user_query category websites")
  case (Inl e)
  then show ?thesis
    by (simp add: generate_reasons_for_websites_def build_fallback_reasons_def keys_fallback_loop)
next
  case (Inr filtered)
  then obtain members where
    "filtered = foldl (\<lambda>filtered (k, v).
       if k \<in> name ` set websites then AList.update k (py_str repr v) filtered else filtered)
       [] members"
    by (auto simp: model_reasons_def split: sum.splits json.splits)
  with keys_filtered_loop [of "name ` set websites" "py_str repr" "[]" members] Inr
  show ?thesis by (simp add: generate_reasons_for_websites_def)
qed

theorem generate_reasons_keys_are_site_names_witness:
  "fst ` set (generate_reasons_for_websites (prompt_chain llm_partial) loads_example
     repr_example (asc ''a laptop'') (asc ''electronics'') two_sites)
     = {asc ''Amazon India'', asc ''Flipkart''} \<and>
   fst ` set (generate_reasons_for_websites (prompt_chain llm_partial) loads_example
     repr_example (asc ''a laptop'') (asc ''electronics'') two_sites) \<subseteq> name ` set two_sites"
proof -
  have v: "fst ` set (generate_reasons_for_websites (prompt_chain llm_partial) loads_example
     repr_example (asc ''a laptop'') (asc ''electronics'') two_sites)
     = {asc ''Amazon India'', asc ''Flipkart''}"
    by (simp add: eval_reasons prompt_chain_raises)
  from generate_reasons_keys_are_site_names [of "prompt_chain llm_partial" loads_example
      repr_example "asc ''a laptop''" "asc ''electronics''" two_sites] v
  show ?thesis by simp
qed


text \<open>
  The faults of a model call: the call raises, its text is not JSON (the empty text is
  not), or the JSON is not an object; for the per-site variant the call raises, the content
  is a list of blocks, or the text is empty once stripped.
\<close>

lemma model_fault_fallback:
  assumes "(\<exists>e. chain (prompt_input user_query category websites) = Inl e) \<or>
    (\<exists>raw. chain (prompt_input user_query category websites) = Inr raw \<and>
       ((\<exists>e. json_loads raw = Inl e) \<or>
        (\<exists>j. json_loads raw = Inr j \<and> (\<forall>members. j \<noteq> JObject members))))"
  shows "generate_reasons_for_websites chain json_loads repr user_query category websites
    = build_fallback_reasons websites category user_query"
  using assms
  by (auto simp: generate_reasons_for_websites_def model_reasons_def
      split: sum.splits json.splits)

lemma llm_fault_fallback:
  assumes "(\<exists>e. llm (llm_prompt query category site_name site_url) = Inl e) \<or>
    (\<exists>r. llm (llm_prompt query category site_name site_url) = Inr r \<and>
       ((\<exists>b bs. r = Blocks (b # bs)) \<or>
        strip_chars (is_space U) (case r of Text t \<Rightarrow> t | _ \<Rightarrow> []) = []))"
  shows "reason_with_llm U llm query category site_name site_url
    = deterministic_reason U site_name category query"
proof (cases "llm (llm_prompt query category site_name site_url)")
  case (Inl e)
  then show ?thesis by (simp add: reason_with_llm_def llm_sentence_def)
next
  case (Inr r)
  with assms have f: "(\<exists>b bs. r = Blocks (b # bs)) \<or>
      strip_chars (is_space U) (case r of Text t \<Rightarrow> t | _ \<Rightarrow> []) = []"
    by simp
  show ?thesis
  proof (cases r)
    case NoContent
    with Inr show ?thesis
      by (simp add: reason_with_llm_def llm_sentence_def strip_chars_def)
  next
    case (Text t)
    with f have "strip_chars (is_space U) t = []" by simp
    with Inr Text show ?thesis
      by (simp add: reason_with_llm_def llm_sentence_def Let_def)
  next
    case (Blocks bs)
    with Inr show ?thesis
      by (cases bs) (simp_all add: reason_with_llm_def llm_sentence_def strip_chars_def)
  qed
qed

text \<open>
  C5. On each of these faults the batch generator returns what \<open>build_fallback_reasons\<close>
  returns on the same sites, category and query, and the per-site generator what
  \<open>deterministic_reason\<close> returns on the same site, category and query. Neither function
  has an error result: nothing reaches the caller.
\<close>

theorem model_fault_gives_fallback:
  "((\<exists>e. chain (prompt_input user_query category websites) = Inl e) \<or>
    (\<exists>raw. chain (prompt_input user_query category websites) = Inr raw \<and>
       ((\<exists>e. json_loads raw = Inl e) \<or>
        (\<exists>j. json_loads raw = Inr j \<and> (\<forall>members. j \<noteq> JObject members))))
    \<longrightarrow> generate_reasons_for_websites chain json_loads repr user_query category websites
          = build_fallback_reasons websites category user_query) \<and>
   ((\<exists>e. llm (llm_prompt user_query category site_name site_url) = Inl e) \<or>
    (\<exists>r. llm (llm_prompt user_query category site_name site_url) = Inr r \<and>
       ((\<exists>b bs. r = Blocks (b # bs)) \<or>
        strip_chars (is_space U) (case r of Text t \<Rightarrow> t | _ \<Rightarrow> []) = []))
    \<longrightarrow> reason_with_llm U llm user_query category site_name site_url
          = deterministic_reason U site_name category user_query)"
  using model_fault_fallback [of chain user_query category websites json_loads repr]
    llm_fault_fallback [of llm user_query category site_name site_url U]
  by blast


theorem model_fault_gives_fallback_witness:
  "generate_reasons_for_websites (prompt_chain llm_partial) loads_example repr_example
     (asc ''a laptop'') (asc ''electronics'') two_sites
     = build_fallback_reasons two_sites (asc ''electronics'') (asc ''a laptop'') \<and>
   generate_reasons_for_websites chain_timeout loads_example repr_example
     (asc ''a laptop'') (asc ''electronics'') two_sites
     = build_fallback_reasons two_sites (asc ''electronics'') (asc ''a laptop'') \<and>
   generate_reasons_for_websites chain_empty loads_example repr_example
     (asc ''a laptop'') (asc ''electronics'') two_sites
     = build_fallback_reasons two_sites (asc ''electronics'') (asc ''a laptop'') \<and>
   build_fallback_reasons two_sites (asc ''electronics'') (asc ''a laptop'')
     = [(asc ''Amazon India'', asc ''Great for electronics; known for fast delivery, wide selection.''),
        (asc ''Flipkart'', asc ''Great for electronics; known for good selection and reliability.'')] \<and>
   reason_with_llm ucd llm_down (asc ''a laptop'') (asc ''electronics'') (asc ''Flipkart'')
     (asc ''https://www.flipkart.com'')
     = deterministic_reason ucd (asc ''Flipkart'') (asc ''electronics'') (asc ''a laptop'') \<and>
   reason_with_llm ucd llm_blank (asc ''a laptop'') (asc ''electronics'') (asc ''Flipkart'')
     (asc ''https://www.flipkart.com'')
     = deterministic_reason ucd (asc ''Flipkart'') (asc ''electronics'') (asc ''a laptop'')"
proof -
  let ?q = "asc ''a laptop''" and ?c = "asc ''electronics''"
  let ?n = "asc ''Flipkart''" and ?u = "asc ''https://www.flipkart.com''"
  have h0: "\<exists>e. prompt_chain llm_partial (prompt_input ?q ?c two_sites) = Inl e"
    by (simp add: prompt_chain_raises)
  have h1: "\<exists>e. chain_timeout (prompt_input ?q ?c two_sites) = Inl e"
    by (simp add: chain_timeout_def)
  have h2: "\<exists>raw. chain_empty (prompt_input ?q ?c two_sites) = Inr raw \<and>
      ((\<exists>e. loads_example raw = Inl e) \<or>
       (\<exists>j. loads_example raw = Inr j \<and> (\<forall>members. j \<noteq> JObject members)))"
    by (simp add: chain_empty_def loads_example_def partial_answer_def asc_def)
  have h3: "\<exists>e. llm_down (llm_prompt ?q ?c ?n ?u) = Inl e"
    by (simp add: llm_down_def)
  have h4: "\<exists>r. llm_blank (llm_prompt ?q ?c ?n ?u) = Inr r \<and>
      ((\<exists>b bs. r = Blocks (b # bs)) \<or>
       strip_chars (is_space ucd) (case r of Text t \<Rightarrow> t | _ \<Rightarrow> []) = [])"
    by (simp add: llm_blank_def strip_chars_def ucd_def asc_def)
  have v: "build_fallback_reasons two_sites ?c ?q
     = [(asc ''Amazon India'', asc ''Great for electronics; known for fast delivery, wide selection.''),
        (asc ''Flipkart'', asc ''Great for electronics; known for good selection and reliability.'')]"
    by (simp add: build_fallback_reasons_def fallback_sentence_def get_strengths_def
        two_sites_def asc_def)
  from h0 model_fault_gives_fallback
    [of "prompt_chain llm_partial" ?q ?c two_sites loads_example repr_example]
  have c0: "generate_reasons_for_websites (prompt_chain llm_partial) loads_example repr_example
      ?q ?c two_sites = build_fallback_reasons two_sites ?c ?q" by blast
  from h1 model_fault_gives_fallback [of chain_timeout ?q ?c two_sites loads_example repr_example]
  have c1: "generate_reasons_for_websites chain_timeout loads_example repr_example ?q ?c two_sites
     = build_fallback_reasons two_sites ?c ?q" by blast
  from h2 model_fault_gives_fallback [of chain_empty ?q ?c two_sites loads_example repr_example]
  have c2: "generate_reasons_for_websites chain_empty loads_example repr_example ?q ?c two_sites
     = build_fallback_reasons two_sites ?c ?q" by blast
  from h3 model_fault_gives_fallback [of _ ?q ?c _ _ _ llm_down ?n ?u ucd]
  have c3: "reason_with_llm ucd llm_down ?q ?c ?n ?u = deterministic_reason ucd ?n ?c ?q"
    by blast
  from h4 model_fault_gives_fallback [of _ ?q ?c _ _ _ llm_blank ?n ?u ucd]
  have c4: "reason_with_llm ucd llm_blank ?q ?c ?n ?u = deterministic_reason ucd ?n ?c ?q"
    by blast
  from c0 c1 c2 c3 c4 v show ?thesis by blast
qed


text \<open>
  C1. With the chain that the function builds, the result is the fallback for all sites,
  for every model, every \<open>json.loads\<close> and every input: an answer with a parse failure,
  malformed JSON, unknown keys or empty text is not even read, since the prompt raises
  before the model is called. Every site has its fallback reason, and no result is
  partial.
\<close>

theorem generate_reasons_never_partial:
  "generate_reasons_for_websites (prompt_chain llm) json_loads repr user_query category websites
     = build_fallback_reasons websites category user_query \<and>
   fst ` set (generate_reasons_for_websites (prompt_chain llm) json_loads repr
                user_query category websites) = name ` set websites"
  by (simp add: generate_reasons_for_websites_def model_reasons_def prompt_chain_raises
      build_fallback_reasons_def keys_fallback_loop)

theorem generate_reasons_never_partial_witness:
  "generate_reasons_for_websites (prompt_chain llm_partial) loads_example repr_example
     (asc ''a laptop'') (asc ''electronics'') two_sites
     = [(asc ''Amazon India'', asc ''Great for electronics; known for fast delivery, wide selection.''),
        (asc ''Flipkart'', asc ''Great for electronics; known for good selection and reliability.'')]"
proof -
  have v: "build_fallback_reasons two_sites (asc ''electronics'') (asc ''a laptop'')
     = [(asc ''Amazon India'', asc ''Great for electronics; known for fast delivery, wide selection.''),
        (asc ''Flipkart'', asc ''Great for electronics; known for good selection and reliability.'')]"
    by (simp add: build_fallback_reasons_def fallback_sentence_def get_strengths_def
        two_sites_def asc_def)
  from generate_reasons_never_partial [of llm_partial loads_example repr_example
      "asc ''a laptop''" "asc ''electronics''" two_sites] v
  show ?thesis by simp
qed

section \<open>Properties of the fallback reasons\<close>

subsection \<open>What the budget pattern matches\<close>



















text \<open>
  With one of the two code points they differ. The query of the spec's first scenario,
  with the rupee sign before the amount, holds the spec's token, and the pattern does not
  match it; the three code points of the pattern before an amount match, and are no
  marker of the spec.
\<close>

lemmas eval_budget = budget_present_def normalize_text_def ucd_def lower_cp_def strip_chars_def
  asc_def budget_rx_def re_search_def

lemma budget_present_rupee_sign:
  "\<not> budget_present ucd (asc ''I want to buy a laptop under '' @ [8377] @ asc ''50,000'') \<and>
   spec_budget_token ucd
     (normalize_text ucd (asc ''I want to buy a laptop under '' @ [8377] @ asc ''50,000''))"
proof -
  let ?q = "asc ''I want to buy a laptop under '' @ [8377] @ asc ''50,000''"
  have n: "normalize_text ucd ?q
      = asc ''i want to buy a laptop under '' @ [8377] @ [] @ 53 # asc ''0,000''"
    by (simp add: normalize_text_def ucd_def lower_cp_def strip_chars_def asc_def)
  have "[8377] \<in> set spec_budget_markers \<and> list_all (is_space ucd) [] \<and> is_decimal ucd 53"
    by (simp add: spec_budget_markers_def ucd_def)
  then have "spec_budget_token ucd
      (asc ''i want to buy a laptop under '' @ [8377] @ [] @ 53 # asc ''0,000'')"
    unfolding spec_budget_token_def by blast
  with n have s: "spec_budget_token ucd (normalize_text ucd ?q)" by simp
  have b: "\<not> budget_present ucd ?q" by (simp add: eval_budget)
  from b s show ?thesis by blast
qed

lemma spec_budget_token_marker:
  "spec_budget_token U q \<Longrightarrow> \<exists>m \<in> set spec_budget_markers. sublist m q"
  unfolding spec_budget_token_def sublist_def by blast

lemma budget_present_misencoded_sign:
  "budget_present ucd ([226, 8218, 185] @ asc ''50'') \<and>
   \<not> spec_budget_token ucd (normalize_text ucd ([226, 8218, 185] @ asc ''50''))"
proof -
  have b: "budget_present ucd ([226, 8218, 185] @ asc ''50'')" by (simp add: eval_budget)
  have n: "normalize_text ucd ([226, 8218, 185] @ asc ''50'') = [226, 8218, 185, 53, 48]"
    by (simp add: normalize_text_def ucd_def lower_cp_def strip_chars_def asc_def)
  have "\<not> (\<exists>m \<in> set spec_budget_markers. sublist m [226, 8218, 185, 53, 48])"
    by (simp add: spec_budget_markers_def asc_def sublist_Cons_right)
  with spec_budget_token_marker [of ucd "[226, 8218, 185, 53, 48]"] n
  have "\<not> spec_budget_token ucd (normalize_text ucd ([226, 8218, 185] @ asc ''50''))" by auto
  with b show ?thesis by blast
qed


subsection \<open>The two fallbacks\<close>








end
